theory Spec2Isabelle
  imports Main "HOL-Library.AList"
begin

section \<open>JavaScript values\<close>

text \<open>
  The values that travel through \<^verbatim>\<open>src/web/server.ts\<close>: request bodies parsed by
  \<^verbatim>\<open>express.json()\<close>, the parts of a log record, thrown values, and the object
  literals the handlers build. \<open>JCircular\<close> is an object whose enumerable properties
  lead back to itself; \<open>JError name message stack cause props\<close> is an instance of
  \<^verbatim>\<open>Error\<close> (\<open>stack\<close> is \<open>None\<close> when the property is undefined), where
  \<open>props\<close> are the enumerable own properties that the error carries besides (a
  \<^verbatim>\<open>code\<close>, a \<^verbatim>\<open>response\<close>, ...); \<open>JBigInt\<close> is a BigInt. Numbers are only
  passed along by this file, never computed with, so integers stand for them. The keys of
  an object are distinct. Functions and symbols are left out: a JSON request body has
  none, and the parts of a log record are strings, numbers, errors and nested data.
\<close>

datatype jsval =
    JUndefined
  | JNull
  | JBool bool
  | JNum int
  | JBigInt int
  | JStr string
  | JArray "jsval list"
  | JObject "(string \<times> jsval) list"
  | JCircular
  | JError (err_name: string) (err_message: string) (err_stack: "string option") (err_cause: jsval)
      (err_props: "(string \<times> jsval) list")

text \<open>\<^verbatim>\<open>typeof m\<close>\<close>

fun typeof :: "jsval \<Rightarrow> string" where
  "typeof JUndefined = ''undefined''"
| "typeof JNull = ''object''"
| "typeof (JBool b) = ''boolean''"
| "typeof (JNum n) = ''number''"
| "typeof (JBigInt n) = ''bigint''"
| "typeof (JStr s) = ''string''"
| "typeof (JArray xs) = ''object''"
| "typeof (JObject kvs) = ''object''"
| "typeof JCircular = ''object''"
| "typeof (JError n m st c ps) = ''object''"

text \<open>\<^verbatim>\<open>m instanceof Error\<close>\<close>

fun instanceof_Error :: "jsval \<Rightarrow> bool" where
  "instanceof_Error (JError n m st c ps) = True"
| "instanceof_Error v = False"

text \<open>Truthiness, as \<^verbatim>\<open>!url\<close> and \<^verbatim>\<open>!dirPath\<close> test it.\<close>

fun truthy :: "jsval \<Rightarrow> bool" where
  "truthy JUndefined = False"
| "truthy JNull = False"
| "truthy (JBool b) = b"
| "truthy (JNum n) = (n \<noteq> 0)"
| "truthy (JBigInt n) = (n \<noteq> 0)"
| "truthy (JStr s) = (s \<noteq> [])"
| "truthy v = True"

text \<open>
  Property read \<^verbatim>\<open>v.k\<close> for the property names this file reads from request data
  (\<^verbatim>\<open>overwrite\<close>, \<^verbatim>\<open>request\<close>, \<^verbatim>\<open>minTime\<close>, ...): none of them is a built-in property of
  a string, an array or an error, so only a plain object can have them.
\<close>

fun get_prop :: "jsval \<Rightarrow> string \<Rightarrow> jsval" where
  "get_prop (JObject kvs) k = (case map_of kvs k of None \<Rightarrow> JUndefined | Some v \<Rightarrow> v)"
| "get_prop v k = JUndefined"

text \<open>Optional chaining \<^verbatim>\<open>v?.k\<close> and nullish coalescing \<^verbatim>\<open>a ?? b\<close>.\<close>

fun nullish :: "jsval \<Rightarrow> bool" where
  "nullish JUndefined = True"
| "nullish JNull = True"
| "nullish v = False"

definition opt_chain :: "jsval \<Rightarrow> string \<Rightarrow> jsval" where
  "opt_chain v k = (if nullish v then JUndefined else get_prop v k)"

definition coalesce :: "jsval \<Rightarrow> jsval \<Rightarrow> jsval" where
  "coalesce a b = (if nullish a then b else a)"

text \<open>\<^verbatim>\<open>error instanceof Error ? error.message : fallback\<close>\<close>

definition message_or :: "jsval \<Rightarrow> string \<Rightarrow> string" where
  "message_or error fallback = (if instanceof_Error error then err_message error else fallback)"

section \<open>\<^verbatim>\<open>JSON.stringify\<close>\<close>

text \<open>
  \<^verbatim>\<open>JSON.stringify\<close> is a built-in of the runtime. It walks the elements of arrays
  and the enumerable own properties of objects, those of an \<^verbatim>\<open>Error\<close> included (its
  message, stack and cause are not enumerable and are not visited), and throws a
  \<^verbatim>\<open>TypeError\<close> at the first BigInt or circular structure it meets.
  \<open>json_throws v\<close> is what it throws on \<open>v\<close>, if it throws. The text it returns is
  kept abstract: \<open>JSON_text v\<close> is the text that renders \<open>v\<close>.
\<close>

definition circular_TypeError :: jsval where
  "circular_TypeError =
     JError ''TypeError'' ''Converting circular structure to JSON'' None JUndefined []"

definition bigint_TypeError :: jsval where
  "bigint_TypeError =
     JError ''TypeError'' ''Do not know how to serialize a BigInt'' None JUndefined []"

fun first_thrown :: "jsval option list \<Rightarrow> jsval option" where
  "first_thrown [] = None"
| "first_thrown (None # xs) = first_thrown xs"
| "first_thrown (Some e # xs) = Some e"

primrec json_throws :: "jsval \<Rightarrow> jsval option" where
  "json_throws JUndefined = None"
| "json_throws JNull = None"
| "json_throws (JBool b) = None"
| "json_throws (JNum n) = None"
| "json_throws (JBigInt n) = Some bigint_TypeError"
| "json_throws (JStr s) = None"
| "json_throws (JArray xs) = first_thrown (map json_throws xs)"
| "json_throws (JObject kvs) = first_thrown (map snd (map (map_prod id json_throws) kvs))"
| "json_throws JCircular = Some circular_TypeError"
| "json_throws (JError n m st c ps) = first_thrown (map snd (map (map_prod id json_throws) ps))"

definition serializable :: "jsval \<Rightarrow> bool" where
  "serializable v = (json_throws v = None)"

datatype frame = JSON_text jsval

text \<open>A thrown value is \<open>Inl\<close>, a normal return is \<open>Inr\<close>.\<close>

definition JSON_stringify :: "jsval \<Rightarrow> jsval + frame" where
  "JSON_stringify v = (case json_throws v of None \<Rightarrow> Inr (JSON_text v) | Some e \<Rightarrow> Inl e)"

section \<open>The observer channels and \<^verbatim>\<open>broadcast\<close>\<close>

text \<open>
  \<^verbatim>\<open>wss.clients\<close>: each client has a \<^verbatim>\<open>readyState\<close> (0 connecting, 1 open, 2 closing,
  3 closed) and the frames handed to its \<^verbatim>\<open>send\<close> so far. \<^verbatim>\<open>send\<close> on an open socket
  queues the frame and does not throw.
\<close>

record client =
  readyState :: nat
  sent :: "frame list"

text \<open>
  \<^verbatim>\<open>wss.clients.forEach(client => { if (client.readyState === 1) client.send(JSON.stringify(data)) })\<close>.
  A throw of \<^verbatim>\<open>JSON.stringify\<close> leaves \<^verbatim>\<open>forEach\<close> and \<^verbatim>\<open>broadcast\<close>; it happens at the
  first open client, before any \<^verbatim>\<open>send\<close>, because the same \<open>data\<close> is rendered for
  each client.
\<close>

fun broadcast :: "jsval \<Rightarrow> client list \<Rightarrow> jsval + client list" where
  "broadcast data [] = Inr []"
| "broadcast data (c # cs) =
     (if readyState c = 1 then
        (case JSON_stringify data of
           Inl e \<Rightarrow> Inl e
         | Inr t \<Rightarrow>
             (case broadcast data cs of
                Inl e \<Rightarrow> Inl e
              | Inr cs' \<Rightarrow> Inr (c\<lparr>sent := sent c @ [t]\<rparr> # cs')))
      else
        (case broadcast data cs of
           Inl e \<Rightarrow> Inl e
         | Inr cs' \<Rightarrow> Inr (c # cs')))"

text \<open>What a publish of frame \<open>t\<close> means for the channels: one more frame on each open one.\<close>

definition deliver :: "frame \<Rightarrow> client list \<Rightarrow> client list" where
  "deliver t cs = map (\<lambda>c. if readyState c = 1 then c\<lparr>sent := sent c @ [t]\<rparr> else c) cs"

section \<open>\<^verbatim>\<open>WebLogger.log\<close>\<close>

text \<open>
  Modelled from the spec: the type \<^verbatim>\<open>LogEntry\<close> is declared in
  \<^verbatim>\<open>lib/utils/logging/Logger.js\<close>, which is not part of the sources at hand. The spec
  describes a log record as a severity level, an originating component name and an ordered
  sequence of message parts (plain strings, numbers, structured error values, arbitrary
  nested data).
\<close>

record LogEntry =
  level :: string
  originator :: string
  message :: "jsval list"

text \<open>
  \<^verbatim>\<open>util.inspect(m, { depth: 3, colors: false })\<close> is a library function of the runtime;
  the adapter takes it as the parameter \<open>inspect\<close>, called with these options.
\<close>

record inspect_options =
  depth :: nat
  colors :: bool

type_synonym inspect = "jsval \<Rightarrow> inspect_options \<Rightarrow> string"

text \<open>The function mapped over \<^verbatim>\<open>entry.message\<close>.\<close>

definition serializePart :: "inspect \<Rightarrow> jsval \<Rightarrow> jsval" where
  "serializePart util_inspect m =
     (if instanceof_Error m then
        JObject [(''type'', JStr ''error''),
                 (''name'', JStr (err_name m)),
                 (''message'', JStr (err_message m)),
                 (''stack'', (case err_stack m of None \<Rightarrow> JUndefined | Some st \<Rightarrow> JStr st)),
                 (''cause'', err_cause m)]
      else if typeof m = ''object'' \<and> m \<noteq> JNull then
        JStr (util_inspect m \<lparr>depth = 3, colors = False\<rparr>)
      else m)"

definition log_event :: "inspect \<Rightarrow> LogEntry \<Rightarrow> jsval" where
  "log_event util_inspect entry =
     JObject [(''type'', JStr ''log''),
              (''level'', JStr (level entry)),
              (''originator'', JStr (originator entry)),
              (''message'', JArray (map (serializePart util_inspect) (message entry)))]"

text \<open>\<^verbatim>\<open>log(entry: LogEntry | null)\<close>: \<open>None\<close> is \<^verbatim>\<open>null\<close>.\<close>

definition WebLogger_log :: "inspect \<Rightarrow> LogEntry option \<Rightarrow> client list \<Rightarrow> jsval + client list" where
  "WebLogger_log util_inspect entry cs =
     (case entry of
        None \<Rightarrow> Inr cs
      | Some e \<Rightarrow> broadcast (log_event util_inspect e) cs)"

section \<open>\<^verbatim>\<open>POST /api/validate-path\<close>\<close>

text \<open>
  The file system and the \<^verbatim>\<open>path\<close> module are the runtime's; the handler is given
  what its calls answer. \<open>path_parse_dir p\<close> is \<^verbatim>\<open>path.parse(p).dir\<close> for a string;
  \<open>path_parse_throws v\<close> is the \<^verbatim>\<open>TypeError\<close> that \<^verbatim>\<open>path.parse\<close> throws for a value
  that is not a string. \<^verbatim>\<open>fs.existsSync\<close> never throws; \<^verbatim>\<open>fs.statSync\<close> and
  \<^verbatim>\<open>fs.accessSync\<close> may.
\<close>

record node_fs =
  path_parse_dir :: "string \<Rightarrow> string"
  path_parse_throws :: "jsval \<Rightarrow> jsval"
  existsSync :: "string \<Rightarrow> bool"
  statSync_isDirectory :: "string \<Rightarrow> jsval + bool"
  accessSync_W_OK :: "string \<Rightarrow> jsval + unit"

type_synonym response = "nat \<times> jsval"

text \<open>
  \<^verbatim>\<open>try { parentExists = fs.existsSync(parentPath) && fs.statSync(parentPath).isDirectory() }
  catch (e) { parentExists = false }\<close>
\<close>

definition probe_parent :: "node_fs \<Rightarrow> string \<Rightarrow> bool" where
  "probe_parent fs parentPath =
     (if existsSync fs parentPath then
        (case statSync_isDirectory fs parentPath of Inl e \<Rightarrow> False | Inr d \<Rightarrow> d)
      else False)"

text \<open>
  The second \<^verbatim>\<open>try\<close> block; the result is \<open>(exists, isDirectory, writable)\<close>. When
  \<^verbatim>\<open>statSync\<close> throws, \<open>exists\<close> is already set and the other two keep their initial
  \<open>False\<close>.
\<close>

definition probe_path :: "node_fs \<Rightarrow> string \<Rightarrow> bool \<Rightarrow> bool \<times> bool \<times> bool" where
  "probe_path fs dirPath parentExists =
     (if existsSync fs dirPath then
        (case statSync_isDirectory fs dirPath of
           Inl e \<Rightarrow> (True, False, False)
         | Inr d \<Rightarrow>
             (True, d, (case accessSync_W_OK fs dirPath of Inl e \<Rightarrow> False | Inr u \<Rightarrow> True)))
      else (False, False, parentExists))"

definition validation_message :: "bool \<Rightarrow> bool \<Rightarrow> bool \<Rightarrow> bool \<Rightarrow> string" where
  "validation_message exists isDirectory writable parentExists =
     (if exists then
        (if isDirectory then
           (if writable then ''Directory is valid and writable''
            else ''Directory exists but is not writable'')
         else ''Path exists but is not a directory'')
      else
        (if parentExists then ''Directory will be created''
         else ''Parent directory does not exist''))"

definition validate_path :: "node_fs \<Rightarrow> jsval \<Rightarrow> response" where
  "validate_path fs dirPath =
     (if \<not> truthy dirPath then (400, JObject [(''error'', JStr ''Path is required'')])
      else
        (case dirPath of
           JStr p \<Rightarrow>
             (let parentPath = path_parse_dir fs p;
                  parentExists = probe_parent fs parentPath;
                  (exists, isDirectory, writable) = probe_path fs p parentExists
              in (200, JObject
                   [(''valid'', JBool (if exists then isDirectory \<and> writable else parentExists)),
                    (''exists'', JBool exists),
                    (''isDirectory'', JBool isDirectory),
                    (''writable'', JBool writable),
                    (''parentExists'', JBool parentExists),
                    (''parentPath'', JStr parentPath),
                    (''message'',
                       JStr (validation_message exists isDirectory writable parentExists))]))
         | _ \<Rightarrow>
             (400, JObject
                [(''valid'', JBool False),
                 (''error'', JStr (message_or (path_parse_throws fs dirPath) ''Invalid path''))])))"

section \<open>The download registry\<close>

text \<open>
  \<^verbatim>\<open>Date.now().toString()\<close>: the decimal rendering of the clock's milliseconds, an
  integer far below the size at which a number is printed with an exponent.
\<close>

fun digits :: "nat \<Rightarrow> string" where
  "digits n =
     (if n < 10 then [''0123456789'' ! n]
      else digits (n div 10) @ [''0123456789'' ! (n mod 10)])"

declare digits.simps [simp del]

definition Number_toString :: "int \<Rightarrow> string" where
  "Number_toString n = (if n < 0 then CHR ''-'' # digits (nat (- n)) else digits (nat n))"

text \<open>The body of a creation request: \<^verbatim>\<open>const { url, outDir, options } = req.body\<close>.\<close>

record request_body =
  url :: jsval
  outDir :: jsval
  options :: jsval

text \<open>
  The options object handed to \<^verbatim>\<open>new ImageFapDownloader(url, {...})\<close>. Its
  \<^verbatim>\<open>logger\<close> property is the \<^verbatim>\<open>WebLogger\<close> above, which holds no data.
\<close>

definition downloader_options :: "jsval \<Rightarrow> jsval \<Rightarrow> jsval" where
  "downloader_options out_dir opts =
     JObject
       [(''outDir'', out_dir),
        (''overwrite'', coalesce (opt_chain opts ''overwrite'') (JBool False)),
        (''seqFilenames'', coalesce (opt_chain opts ''seqFilenames'') (JBool False)),
        (''fullFilenames'', coalesce (opt_chain opts ''fullFilenames'') (JBool False)),
        (''saveJSON'', coalesce (opt_chain opts ''saveJSON'') (JBool True)),
        (''saveHTML'', coalesce (opt_chain opts ''saveHTML'') (JBool False)),
        (''dirStructure'', JObject
           [(''user'',
               coalesce (opt_chain (opt_chain opts ''dirStructure'') ''user'') (JBool True)),
            (''favorites'',
               coalesce (opt_chain (opt_chain opts ''dirStructure'') ''favorites'') (JBool True)),
            (''folder'',
               coalesce (opt_chain (opt_chain opts ''dirStructure'') ''folder'') (JBool True)),
            (''gallery'',
               coalesce (opt_chain (opt_chain opts ''dirStructure'') ''gallery'') (JBool True))]),
        (''request'', JObject
           [(''maxRetries'',
               coalesce (opt_chain (opt_chain opts ''request'') ''maxRetries'') (JNum 3)),
            (''maxConcurrent'',
               coalesce (opt_chain (opt_chain opts ''request'') ''maxConcurrent'') (JNum 10)),
            (''minTime'', JObject
               [(''page'',
                   coalesce
                     (opt_chain (opt_chain (opt_chain opts ''request'') ''minTime'') ''page'')
                     (JNum 200)),
                (''image'',
                   coalesce
                     (opt_chain (opt_chain (opt_chain opts ''request'') ''minTime'') ''image'')
                     (JNum 200))])])]"

text \<open>
  An entry of \<^verbatim>\<open>activeDownloads\<close>. The downloader is kept as the arguments of its
  constructor; an \<^verbatim>\<open>AbortController\<close> is an object with identity, kept as its
  address.
\<close>

record session =
  downloader :: "jsval \<times> jsval"
  abortController :: nat

text \<open>
  The state of the process:
  \<^item> \<open>activeDownloads\<close>: the \<^verbatim>\<open>Map\<close>, in insertion order (\<^verbatim>\<open>set\<close> is \<open>AList.update\<close>,
    \<^verbatim>\<open>get\<close> is \<open>map_of\<close>, \<^verbatim>\<open>delete\<close> is \<open>AList.delete\<close>, \<^verbatim>\<open>keys\<close> is \<open>map fst\<close>);
  \<^item> \<open>aborted\<close>: the controllers whose \<^verbatim>\<open>signal.aborted\<close> is true;
  \<^item> \<open>controllers\<close>: how many controllers were allocated, the address of the next one;
  \<^item> \<open>pending\<close>: the promises of \<^verbatim>\<open>downloader.start\<close> that have not settled, each
    with the \<^verbatim>\<open>downloadId\<close> its \<^verbatim>\<open>then\<close>/\<^verbatim>\<open>catch\<close> closures captured, keyed by the
    controller the closures captured;
  \<^item> \<open>clients\<close>: \<^verbatim>\<open>wss.clients\<close>.
\<close>

record server =
  activeDownloads :: "(string \<times> session) list"
  aborted :: "nat set"
  controllers :: nat
  pending :: "nat \<rightharpoonup> string"
  clients :: "client list"

definition init :: server where
  "init = \<lparr>activeDownloads = [], aborted = {}, controllers = 0, pending = Map.empty, clients = []\<rparr>"

definition complete_event :: "string \<Rightarrow> jsval" where
  "complete_event downloadId =
     JObject [(''type'', JStr ''complete''),
              (''downloadId'', JStr downloadId),
              (''message'', JStr ''Download completed successfully'')]"

definition error_event :: "string \<Rightarrow> jsval \<Rightarrow> jsval" where
  "error_event downloadId error =
     JObject [(''type'', JStr ''error''),
              (''downloadId'', JStr downloadId),
              (''message'', JStr (message_or error ''Unknown error occurred''))]"

definition cancelled_event :: "string \<Rightarrow> jsval" where
  "cancelled_event downloadId =
     JObject [(''type'', JStr ''cancelled''),
              (''downloadId'', JStr downloadId),
              (''message'', JStr ''Download cancelled'')]"

text \<open>
  \<^verbatim>\<open>POST /api/download\<close>, with the clock reading \<open>now\<close> of \<^verbatim>\<open>Date.now()\<close> and
  \<open>ctor_throws\<close>, the value the constructor of the downloader throws, if it throws
  (the constructor is in \<^verbatim>\<open>lib/ImageFapDownloader.js\<close>). \<^verbatim>\<open>downloader.start\<close> returns a
  promise; its \<^verbatim>\<open>then\<close> and \<^verbatim>\<open>catch\<close> handlers run in a later turn of the event loop.
\<close>

definition post_download :: "int \<Rightarrow> jsval option \<Rightarrow> request_body \<Rightarrow> server \<Rightarrow> response \<times> server" where
  "post_download now ctor_throws body s =
     (if \<not> truthy (url body) \<or> \<not> truthy (outDir body) then
        ((400, JObject [(''error'', JStr ''URL and output directory are required'')]), s)
      else
        (let downloadId = Number_toString now;
             controller = controllers s;
             s1 = s\<lparr>controllers := Suc (controllers s)\<rparr>
         in (case ctor_throws of
               Some error \<Rightarrow>
                 ((500, JObject [(''error'', JStr (message_or error ''Failed to start download''))]),
                  s1)
             | None \<Rightarrow>
                 ((200, JObject [(''success'', JBool True),
                                 (''downloadId'', JStr downloadId),
                                 (''message'', JStr ''Download started'')]),
                  s1\<lparr>activeDownloads :=
                        AList.update downloadId
                          \<lparr>downloader = (url body, downloader_options (outDir body) (options body)),
                           abortController = controller\<rparr>
                          (activeDownloads s1),
                      pending := (pending s1)(controller \<mapsto> downloadId)\<rparr>))))"

text \<open>
  The \<^verbatim>\<open>then\<close> handler: \<^verbatim>\<open>broadcast({type: 'complete', ...}); activeDownloads.delete(downloadId)\<close>.
\<close>

definition on_fulfilled :: "string \<Rightarrow> server \<Rightarrow> jsval + server" where
  "on_fulfilled downloadId s =
     (case broadcast (complete_event downloadId) (clients s) of
        Inl e \<Rightarrow> Inl e
      | Inr cs \<Rightarrow>
          Inr (s\<lparr>clients := cs,
                 activeDownloads := AList.delete downloadId (activeDownloads s)\<rparr>))"

text \<open>
  The \<^verbatim>\<open>catch\<close> handler:
  \<^verbatim>\<open>if (!abortController.signal.aborted) broadcast({type: 'error', ...}); activeDownloads.delete(downloadId)\<close>.
\<close>

definition on_rejected :: "string \<Rightarrow> nat \<Rightarrow> jsval \<Rightarrow> server \<Rightarrow> jsval + server" where
  "on_rejected downloadId controller error s =
     (case (if controller \<notin> aborted s
            then broadcast (error_event downloadId error) (clients s)
            else Inr (clients s)) of
        Inl e \<Rightarrow> Inl e
      | Inr cs \<Rightarrow>
          Inr (s\<lparr>clients := cs,
                 activeDownloads := AList.delete downloadId (activeDownloads s)\<rparr>))"

text \<open>
  The chain \<^verbatim>\<open>start(...).then(F).catch(R)\<close> when the promise of \<^verbatim>\<open>start\<close> settles:
  a fulfilment runs \<open>F\<close>, and \<open>R\<close> with what \<open>F\<close> threw if it threw; a rejection runs
  \<open>R\<close>. A throw of \<open>R\<close> is an unhandled rejection and leaves the state as it was.
\<close>

datatype outcome = Fulfilled | Rejected jsval

definition settle :: "string \<Rightarrow> nat \<Rightarrow> outcome \<Rightarrow> server \<Rightarrow> server" where
  "settle downloadId controller out s =
     (case out of
        Fulfilled \<Rightarrow>
          (case on_fulfilled downloadId s of
             Inr s' \<Rightarrow> s'
           | Inl e \<Rightarrow>
               (case on_rejected downloadId controller e s of
                  Inr s' \<Rightarrow> s'
                | Inl e' \<Rightarrow> s))
      | Rejected error \<Rightarrow>
          (case on_rejected downloadId controller error s of
             Inr s' \<Rightarrow> s'
           | Inl e' \<Rightarrow> s))"

text \<open>
  \<^verbatim>\<open>POST /api/download/:id/cancel\<close>. A throw of \<^verbatim>\<open>broadcast\<close> would reach the
  framework's error handler, which answers 500 with a body that is not JSON.
\<close>

definition post_cancel :: "string \<Rightarrow> server \<Rightarrow> response \<times> server" where
  "post_cancel downloadId s =
     (case map_of (activeDownloads s) downloadId of
        None \<Rightarrow> ((404, JObject [(''error'', JStr ''Download not found'')]), s)
      | Some download \<Rightarrow>
          (let s1 = s\<lparr>aborted := insert (abortController download) (aborted s),
                      activeDownloads := AList.delete downloadId (activeDownloads s)\<rparr>
           in (case broadcast (cancelled_event downloadId) (clients s1) of
                 Inl e \<Rightarrow> ((500, JUndefined), s1)
               | Inr cs \<Rightarrow>
                   ((200, JObject [(''success'', JBool True),
                                   (''message'', JStr ''Download cancelled'')]),
                    s1\<lparr>clients := cs\<rparr>))))"

text \<open>\<^verbatim>\<open>GET /api/downloads\<close>\<close>

definition list_ids :: "server \<Rightarrow> string list" where
  "list_ids s = map fst (activeDownloads s)"

definition get_downloads :: "server \<Rightarrow> response" where
  "get_downloads s =
     (200, JObject [(''downloads'', JArray (map (\<lambda>k. JObject [(''id'', JStr k)]) (list_ids s)))])"

section \<open>Turns of the event loop\<close>

text \<open>
  Each callback runs to completion before the next one starts. A turn is a request
  handled (\<open>Create\<close>, \<open>Cancel\<close>), the promise of session \<open>k\<close> settling (\<open>Settle\<close>,
  possible once, while it is pending), a record logged by a running downloader
  (\<open>Log\<close>; what it throws goes back to the downloader), an observer connecting
  (\<open>Connect\<close>) or the transport of observer \<open>i\<close> closing (\<open>Close\<close>).
\<close>

datatype action =
    Create int "jsval option" request_body
  | Cancel string
  | Settle nat outcome
  | Log "LogEntry option"
  | Connect
  | Close nat

fun step :: "inspect \<Rightarrow> server \<Rightarrow> action \<Rightarrow> server option" where
  "step ui s (Create now ctor_throws body) = Some (snd (post_download now ctor_throws body s))"
| "step ui s (Cancel downloadId) = Some (snd (post_cancel downloadId s))"
| "step ui s (Settle k out) =
     (case pending s k of
        None \<Rightarrow> None
      | Some downloadId \<Rightarrow> Some (settle downloadId k out (s\<lparr>pending := (pending s)(k := None)\<rparr>)))"
| "step ui s (Log entry) =
     (case WebLogger_log ui entry (clients s) of
        Inl e \<Rightarrow> Some s
      | Inr cs \<Rightarrow> Some (s\<lparr>clients := cs\<rparr>))"
| "step ui s Connect = Some (s\<lparr>clients := clients s @ [\<lparr>readyState = 1, sent = []\<rparr>]\<rparr>)"
| "step ui s (Close i) =
     (if i < length (clients s)
      then Some (s\<lparr>clients := (clients s)[i := (clients s ! i)\<lparr>readyState := 3\<rparr>]\<rparr>)
      else None)"

fun run :: "inspect \<Rightarrow> server \<Rightarrow> action list \<Rightarrow> server option" where
  "run ui s [] = Some s"
| "run ui s (a # as) = (case step ui s a of None \<Rightarrow> None | Some s' \<Rightarrow> run ui s' as)"

text \<open>A session is live while its promise is pending and its controller is not aborted.\<close>

definition live :: "server \<Rightarrow> nat \<Rightarrow> bool" where
  "live s k = (pending s k \<noteq> None \<and> k \<notin> aborted s)"

section \<open>Predicates of the properties\<close>

text \<open>The primitive values: those that are not objects.\<close>

definition primitive :: "jsval \<Rightarrow> bool" where
  "primitive v =
     (case v of
        JUndefined \<Rightarrow> True
      | JNull \<Rightarrow> True
      | JBool b \<Rightarrow> True
      | JNum n \<Rightarrow> True
      | JBigInt n \<Rightarrow> True
      | JStr s \<Rightarrow> True
      | _ \<Rightarrow> False)"

text \<open>
  What holds of the registry after any sequence of turns: an entry's session is the one
  whose promise is pending under that identifier, its controller is not aborted, and only
  allocated controllers are pending or aborted.
\<close>

definition registry_ok :: "server \<Rightarrow> bool" where
  "registry_ok s =
     ((\<forall>d sess. map_of (activeDownloads s) d = Some sess \<longrightarrow>
         pending s (abortController sess) = Some d \<and> abortController sess \<notin> aborted s)
      \<and> (\<forall>k. k \<in> aborted s \<longrightarrow> k < controllers s)
      \<and> (\<forall>k d. pending s k = Some d \<longrightarrow> k < controllers s))"

section \<open>Concrete inputs\<close>

text \<open>A stand-in for \<^verbatim>\<open>util.inspect\<close> where a concrete one is needed.\<close>

definition inspect_stub :: inspect where
  "inspect_stub v opts = ''[inspected]''"

definition request0 :: request_body where
  "request0 = \<lparr>url = JStr ''https://example.org/gallery/1'', outDir = JStr ''/data/a'', options = JUndefined\<rparr>"

definition request1 :: request_body where
  "request1 = \<lparr>url = JStr ''https://example.org/gallery/2'', outDir = JStr ''/data/b'', options = JUndefined\<rparr>"

text \<open>
  A file system in which \<^verbatim>\<open>/ro\<close> is a directory that cannot be written to and
  nothing else exists.
\<close>

definition readonly_parent_fs :: node_fs where
  "readonly_parent_fs =
     \<lparr>path_parse_dir = (\<lambda>p. ''/ro''),
      path_parse_throws = (\<lambda>v. JError ''TypeError'' ''The path argument must be of type string'' None JUndefined []),
      existsSync = (\<lambda>p. p = ''/ro''),
      statSync_isDirectory = (\<lambda>p. Inr True),
      accessSync_W_OK = (\<lambda>p. Inl (JError ''Error'' ''EACCES: permission denied'' None JUndefined []))\<rparr>"

definition one_download :: server where
  "one_download =
     \<lparr>activeDownloads =
        [(''17'', \<lparr>downloader = (JStr ''https://example.org/gallery/1'', JObject []),
                  abortController = 0\<rparr>)],
      aborted = {},
      controllers = 1,
      pending = [0 \<mapsto> ''17''],
      clients = [\<lparr>readyState = 1, sent = []\<rparr>]\<rparr>"

definition boom :: jsval where
  "boom = JError ''Error'' ''connection reset'' None JUndefined []"

definition trace_two :: "action list" where
  "trace_two = [Connect, Create 17 None request0, Create 18 None request1, Settle 0 Fulfilled]"

text \<open>An observer connects and two requests are accepted at the same clock reading.\<close>

definition shared_created :: "action list" where
  "shared_created =
     [Connect, Create 1700000000000 None request0, Create 1700000000000 None request1]"

section \<open>Publishing\<close>

lemma broadcast_serializable:
  "serializable data \<Longrightarrow> broadcast data cs = Inr (deliver (JSON_text data) cs)"
  by (induction cs) (simp_all add: deliver_def JSON_stringify_def serializable_def)

lemma broadcast_unserializable:
  "json_throws data = Some e \<Longrightarrow>
     broadcast data cs = (if list_ex (\<lambda>c. readyState c = 1) cs then Inl e else Inr cs)"
  by (induction cs) (simp_all add: JSON_stringify_def)

lemma broadcast_Inr_deliver:
  "broadcast data cs = Inr cs' \<Longrightarrow> cs' = deliver (JSON_text data) cs"
proof (induction cs arbitrary: cs')
  case Nil
  then show ?case by (simp add: deliver_def)
next
  case (Cons c cs)
  then show ?case
    by (auto simp: deliver_def JSON_stringify_def split: if_splits sum.splits option.splits)
qed

lemma broadcast_no_open:
  "list_all (\<lambda>c. readyState c \<noteq> 1) cs \<Longrightarrow> broadcast data cs = Inr cs"
  by (induction cs) simp_all

lemma broadcast_throws_iff:
  "isl (broadcast data cs) = (\<not> serializable data \<and> list_ex (\<lambda>c. readyState c = 1) cs)"
proof (cases "json_throws data")
  case None
  then have "serializable data"
    by (simp add: serializable_def)
  then show ?thesis
    by (simp add: broadcast_serializable)
next
  case (Some e)
  then show ?thesis
    by (simp add: broadcast_unserializable serializable_def)
qed

lemma list_ex_filter_open:
  "list_ex (\<lambda>c. readyState c = 1) (filter (\<lambda>c. readyState c = 1) cs)
     = list_ex (\<lambda>c. readyState c = (1::nat)) cs"
  by (induction cs) simp_all

lemma deliver_nth:
  "i < length cs \<Longrightarrow>
     deliver t cs ! i =
       (if readyState (cs ! i) = 1 then (cs ! i)\<lparr>sent := sent (cs ! i) @ [t]\<rparr> else cs ! i)"
  by (simp add: deliver_def)

lemma json_throws_events [simp]:
  "json_throws (complete_event d) = None"
  "json_throws (error_event d e) = None"
  "json_throws (cancelled_event d) = None"
  by (simp_all add: complete_event_def error_event_def cancelled_event_def)

lemma serializable_events [simp]:
  "serializable (complete_event d)"
  "serializable (error_event d e)"
  "serializable (cancelled_event d)"
  by (simp_all add: serializable_def)

text \<open>
  C9. A publish hands the frame to the open channels only: a channel that is not open
  keeps what it had, whether the publish throws or not does not depend on the channels
  that are not open, and with no open channel the publish returns without doing anything.
\<close>

theorem broadcast_open_channels_only:
  "(broadcast data cs = Inr cs' \<longrightarrow>
      length cs' = length cs \<and>
      (\<forall>i<length cs.
         cs' ! i =
           (if readyState (cs ! i) = 1
            then (cs ! i)\<lparr>sent := sent (cs ! i) @ [JSON_text data]\<rparr>
            else cs ! i)))
   \<and> (list_all (\<lambda>c. readyState c \<noteq> 1) cs \<longrightarrow> broadcast data cs = Inr cs)
   \<and> isl (broadcast data cs) = isl (broadcast data (filter (\<lambda>c. readyState c = 1) cs))"
proof (intro conjI impI)
  assume ok: "broadcast data cs = Inr cs'"
  then have eq: "cs' = deliver (JSON_text data) cs"
    by (rule broadcast_Inr_deliver)
  show "length cs' = length cs"
    by (simp add: eq deliver_def)
  show "\<forall>i<length cs.
          cs' ! i =
            (if readyState (cs ! i) = 1
             then (cs ! i)\<lparr>sent := sent (cs ! i) @ [JSON_text data]\<rparr>
             else cs ! i)"
    by (simp add: eq deliver_nth)
next
  assume "list_all (\<lambda>c. readyState c \<noteq> 1) cs"
  then show "broadcast data cs = Inr cs"
    by (rule broadcast_no_open)
next
  show "isl (broadcast data cs) = isl (broadcast data (filter (\<lambda>c. readyState c = 1) cs))"
    by (simp only: broadcast_throws_iff list_ex_filter_open)
qed

theorem broadcast_open_channels_only_witness:
  "broadcast (cancelled_event ''17'')
     [\<lparr>readyState = 1, sent = []\<rparr>, \<lparr>readyState = 3, sent = []\<rparr>]
     = Inr [\<lparr>readyState = 1, sent = [JSON_text (cancelled_event ''17'')]\<rparr>,
            \<lparr>readyState = 3, sent = []\<rparr>]
   \<and> broadcast (JArray [JCircular]) [\<lparr>readyState = 3, sent = []\<rparr>]
       = Inr [\<lparr>readyState = 3, sent = []\<rparr>]
   \<and> \<not> isl (broadcast (JArray [JCircular]) [\<lparr>readyState = 3, sent = []\<rparr>])"
  using broadcast_open_channels_only
          [of "cancelled_event ''17''"
              "[\<lparr>readyState = 1, sent = []\<rparr>, \<lparr>readyState = 3, sent = []\<rparr>]"
              "[\<lparr>readyState = 1, sent = [JSON_text (cancelled_event ''17'')]\<rparr>,
                \<lparr>readyState = 3, sent = []\<rparr>]"]
        broadcast_open_channels_only
          [of "JArray [JCircular]" "[\<lparr>readyState = 3, sent = []\<rparr>]" "[]"]
  by (simp add: JSON_stringify_def)

section \<open>The log adapter\<close>

lemma json_throws_stack:
  "json_throws (case st of None \<Rightarrow> JUndefined | Some t \<Rightarrow> JStr t) = None"
  by (cases st) simp_all

lemma serializable_part:
  "(instanceof_Error m \<longrightarrow> serializable (err_cause m)) \<and> typeof m \<noteq> ''bigint'' \<Longrightarrow>
     json_throws (serializePart ui m) = None"
  by (cases m) (simp_all add: serializePart_def serializable_def json_throws_stack)

lemma serializable_parts:
  "list_all (\<lambda>m. (instanceof_Error m \<longrightarrow> serializable (err_cause m)) \<and> typeof m \<noteq> ''bigint'') ms
     \<Longrightarrow> first_thrown (map json_throws (map (serializePart ui) ms)) = None"
  by (induction ms) (simp_all add: serializable_part)

lemma serializable_log_event:
  "list_all (\<lambda>m. (instanceof_Error m \<longrightarrow> serializable (err_cause m)) \<and> typeof m \<noteq> ''bigint'')
     (message entry)
     \<Longrightarrow> serializable (log_event ui entry)"
  using serializable_parts [of "message entry" ui]
  by (simp add: log_event_def serializable_def)

text \<open>
  C7. The payload of the \<^verbatim>\<open>log\<close> event is the list of normalized parts. A part that is
  an error becomes a record with the error's name and message, its stack when it has one,
  and its cause; any other part that is not a primitive becomes the text that
  \<^verbatim>\<open>util.inspect\<close> renders at depth 3; a primitive part is passed on as it is.
\<close>

theorem log_parts_normalized:
  "WebLogger_log ui (Some entry) cs = broadcast (log_event ui entry) cs
   \<and> get_prop (log_event ui entry) ''message'' = JArray (map (serializePart ui) (message entry))
   \<and> (instanceof_Error m \<longrightarrow>
        serializePart ui m =
          JObject [(''type'', JStr ''error''),
                   (''name'', JStr (err_name m)),
                   (''message'', JStr (err_message m)),
                   (''stack'', (case err_stack m of None \<Rightarrow> JUndefined | Some st \<Rightarrow> JStr st)),
                   (''cause'', err_cause m)])
   \<and> (\<not> instanceof_Error m \<and> \<not> primitive m \<longrightarrow>
        serializePart ui m = JStr (ui m \<lparr>depth = 3, colors = False\<rparr>))
   \<and> (primitive m \<longrightarrow> serializePart ui m = m)"
proof (intro conjI)
  show "WebLogger_log ui (Some entry) cs = broadcast (log_event ui entry) cs"
    by (simp add: WebLogger_log_def)
  show "get_prop (log_event ui entry) ''message'' = JArray (map (serializePart ui) (message entry))"
    by (simp add: log_event_def)
  show "instanceof_Error m \<longrightarrow>
        serializePart ui m =
          JObject [(''type'', JStr ''error''),
                   (''name'', JStr (err_name m)),
                   (''message'', JStr (err_message m)),
                   (''stack'', (case err_stack m of None \<Rightarrow> JUndefined | Some st \<Rightarrow> JStr st)),
                   (''cause'', err_cause m)]"
    by (simp add: serializePart_def)
  show "\<not> instanceof_Error m \<and> \<not> primitive m \<longrightarrow>
        serializePart ui m = JStr (ui m \<lparr>depth = 3, colors = False\<rparr>)"
    by (cases m) (simp_all add: serializePart_def primitive_def)
  show "primitive m \<longrightarrow> serializePart ui m = m"
    by (cases m) (simp_all add: serializePart_def primitive_def)
qed

theorem log_parts_normalized_witness:
  "serializePart inspect_stub (JError ''Error'' ''boom'' (Some ''Error: boom at start'') (JStr ''reset'') [])
     = JObject [(''type'', JStr ''error''),
                (''name'', JStr ''Error''),
                (''message'', JStr ''boom''),
                (''stack'', JStr ''Error: boom at start''),
                (''cause'', JStr ''reset'')]
   \<and> serializePart inspect_stub (JObject [(''a'', JArray [JNum 1])]) = JStr ''[inspected]''
   \<and> serializePart inspect_stub JCircular = JStr ''[inspected]''
   \<and> serializePart inspect_stub (JNum 7) = JNum 7"
  using log_parts_normalized
          [of inspect_stub _ _ "JError ''Error'' ''boom'' (Some ''Error: boom at start'') (JStr ''reset'') []"]
        log_parts_normalized [of inspect_stub _ _ "JObject [(''a'', JArray [JNum 1])]"]
        log_parts_normalized [of inspect_stub _ _ JCircular]
        log_parts_normalized [of inspect_stub _ _ "JNum 7"]
  by (simp add: primitive_def inspect_stub_def)

text \<open>
  C8, as the spec states it, fails: a record with an error whose cause is a circular
  structure makes the adapter throw as soon as one observer is open.
\<close>

theorem log_throws_on_circular_cause:
  "WebLogger_log inspect_stub
     (Some \<lparr>level = ''error'', originator = ''downloader'',
            message = [JStr ''request failed'', JError ''Error'' ''boom'' None JCircular []]\<rparr>)
     [\<lparr>readyState = 1, sent = []\<rparr>]
   = Inl circular_TypeError"
  by (simp add: WebLogger_log_def log_event_def serializePart_def JSON_stringify_def)

text \<open>
  The same happens when the cause is an error that carries an enumerable property with a
  circular structure, and when a part is a BigInt, which is a primitive and is passed on
  as it is.
\<close>

lemma log_throws_on_error_cause_with_circular_property:
  "WebLogger_log inspect_stub
     (Some \<lparr>level = ''error'', originator = ''downloader'',
            message = [JError ''Error'' ''boom'' None
                         (JError ''Error'' ''socket hang up'' None JUndefined
                            [(''request'', JCircular)]) []]\<rparr>)
     [\<lparr>readyState = 1, sent = []\<rparr>]
   = Inl circular_TypeError"
  by (simp add: WebLogger_log_def log_event_def serializePart_def JSON_stringify_def)

lemma log_throws_on_bigint_part:
  "WebLogger_log inspect_stub
     (Some \<lparr>level = ''info'', originator = ''downloader'',
            message = [JStr ''bytes'', JBigInt 10]\<rparr>)
     [\<lparr>readyState = 1, sent = []\<rparr>]
   = Inl bigint_TypeError"
  by (simp add: WebLogger_log_def log_event_def serializePart_def JSON_stringify_def)

text \<open>
  C8, amended. The adapter has no handler for exceptions and no placeholder. A part that
  is an object other than an error, circular or not, is rendered to text by
  \<^verbatim>\<open>util.inspect\<close> before the event is serialized. So a record in which no part is a
  BigInt and the cause of every error part can be serialized by \<^verbatim>\<open>JSON.stringify\<close>
  (it holds no BigInt and no circular structure in what \<^verbatim>\<open>JSON.stringify\<close> visits) is
  published without a throw, as the one \<^verbatim>\<open>log\<close> event, to every open observer; a
  \<^verbatim>\<open>null\<close> record publishes nothing; and with no open observer nothing is serialized
  and nothing is thrown.
\<close>

theorem log_does_not_throw:
  "(list_all (\<lambda>m. (instanceof_Error m \<longrightarrow> serializable (err_cause m)) \<and> typeof m \<noteq> ''bigint'')
      (message entry) \<longrightarrow>
      WebLogger_log ui (Some entry) cs =
        Inr (deliver
               (JSON_text (JObject [(''type'', JStr ''log''),
                                    (''level'', JStr (level entry)),
                                    (''originator'', JStr (originator entry)),
                                    (''message'', JArray (map (serializePart ui) (message entry)))]))
               cs))
   \<and> WebLogger_log ui None cs = Inr cs
   \<and> (list_all (\<lambda>c. readyState c \<noteq> 1) cs \<longrightarrow> WebLogger_log ui e cs = Inr cs)"
proof (intro conjI impI)
  assume "list_all (\<lambda>m. (instanceof_Error m \<longrightarrow> serializable (err_cause m)) \<and> typeof m \<noteq> ''bigint'')
            (message entry)"
  then have "serializable (log_event ui entry)"
    by (rule serializable_log_event)
  then have "WebLogger_log ui (Some entry) cs = Inr (deliver (JSON_text (log_event ui entry)) cs)"
    by (simp add: WebLogger_log_def broadcast_serializable)
  then show "WebLogger_log ui (Some entry) cs =
        Inr (deliver
               (JSON_text (JObject [(''type'', JStr ''log''),
                                    (''level'', JStr (level entry)),
                                    (''originator'', JStr (originator entry)),
                                    (''message'', JArray (map (serializePart ui) (message entry)))]))
               cs)"
    by (simp add: log_event_def)
next
  show "WebLogger_log ui None cs = Inr cs"
    by (simp add: WebLogger_log_def)
next
  assume "list_all (\<lambda>c. readyState c \<noteq> 1) cs"
  then show "WebLogger_log ui e cs = Inr cs"
    by (cases e) (simp_all add: WebLogger_log_def broadcast_no_open)
qed

theorem log_does_not_throw_witness:
  "WebLogger_log inspect_stub
     (Some \<lparr>level = ''warn'', originator = ''downloader'',
            message = [JStr ''retrying'', JCircular,
                       JError ''Error'' ''boom'' None
                         (JError ''Error'' ''socket hang up'' None JUndefined
                            [(''code'', JStr ''ECONNRESET'')]) []]\<rparr>)
     [\<lparr>readyState = 1, sent = []\<rparr>]
   = Inr [\<lparr>readyState = 1,
           sent = [JSON_text (JObject [(''type'', JStr ''log''),
                                       (''level'', JStr ''warn''),
                                       (''originator'', JStr ''downloader''),
                                       (''message'',
                                          JArray [JStr ''retrying'', JStr ''[inspected]'',
                                                  JObject [(''type'', JStr ''error''),
                                                           (''name'', JStr ''Error''),
                                                           (''message'', JStr ''boom''),
                                                           (''stack'', JUndefined),
                                                           (''cause'',
                                                              JError ''Error'' ''socket hang up'' None
                                                                JUndefined
                                                                [(''code'', JStr ''ECONNRESET'')])]])])]\<rparr>]
   \<and> WebLogger_log inspect_stub
       (Some \<lparr>level = ''error'', originator = ''downloader'',
              message = [JError ''Error'' ''boom'' None JCircular []]\<rparr>)
       [\<lparr>readyState = 3, sent = []\<rparr>]
     = Inr [\<lparr>readyState = 3, sent = []\<rparr>]"
proof -
  have safe: "list_all (\<lambda>m. (instanceof_Error m \<longrightarrow> serializable (err_cause m)) \<and> typeof m \<noteq> ''bigint'')
                (message \<lparr>level = ''warn'', originator = ''downloader'',
                   message = [JStr ''retrying'', JCircular,
                       JError ''Error'' ''boom'' None
                         (JError ''Error'' ''socket hang up'' None JUndefined
                            [(''code'', JStr ''ECONNRESET'')]) []]\<rparr>)"
    by (simp add: serializable_def)
  have closed: "list_all (\<lambda>c. readyState c \<noteq> 1) [\<lparr>readyState = 3, sent = []\<rparr>]"
    by simp
  show ?thesis
    using log_does_not_throw
            [of "\<lparr>level = ''warn'', originator = ''downloader'',
                   message = [JStr ''retrying'', JCircular,
                       JError ''Error'' ''boom'' None
                         (JError ''Error'' ''socket hang up'' None JUndefined
                            [(''code'', JStr ''ECONNRESET'')]) []]\<rparr>"
                inspect_stub "[\<lparr>readyState = 1, sent = []\<rparr>]"]
          log_does_not_throw
            [of _ inspect_stub "[\<lparr>readyState = 3, sent = []\<rparr>]"
                "Some \<lparr>level = ''error'', originator = ''downloader'',
                       message = [JError ''Error'' ''boom'' None JCircular []]\<rparr>"]
          safe closed
    by (simp add: deliver_def serializePart_def inspect_stub_def)
qed

section \<open>Cancelling\<close>

text \<open>
  C3. A cancel of an identifier that is registered aborts the session's controller,
  removes the entry, publishes one event, of type \<^verbatim>\<open>cancelled\<close> and with that
  identifier, to each open observer, and answers 200; a second
  cancel of the same identifier answers 404 and changes nothing, so it publishes nothing.
  A cancel of an identifier that is not registered answers 404 and changes nothing.
\<close>

theorem cancel_found_then_not_found:
  "(map_of (activeDownloads s) d = None \<longrightarrow>
      post_cancel d s = ((404, JObject [(''error'', JStr ''Download not found'')]), s))
   \<and> (map_of (activeDownloads s) d = Some sess \<longrightarrow>
        post_cancel d s =
          ((200, JObject [(''success'', JBool True), (''message'', JStr ''Download cancelled'')]),
           s\<lparr>aborted := insert (abortController sess) (aborted s),
             activeDownloads := AList.delete d (activeDownloads s),
             clients := deliver (JSON_text (JObject [(''type'', JStr ''cancelled''),
                                            (''downloadId'', JStr d),
                                            (''message'', JStr ''Download cancelled'')])) (clients s)\<rparr>)
        \<and> map_of (activeDownloads (snd (post_cancel d s))) d = None
        \<and> post_cancel d (snd (post_cancel d s)) =
            ((404, JObject [(''error'', JStr ''Download not found'')]), snd (post_cancel d s)))"
proof (intro conjI impI)
  assume "map_of (activeDownloads s) d = None"
  then show "post_cancel d s = ((404, JObject [(''error'', JStr ''Download not found'')]), s)"
    by (simp add: post_cancel_def)
next
  assume found: "map_of (activeDownloads s) d = Some sess"
  then have "post_cancel d s =
          ((200, JObject [(''success'', JBool True), (''message'', JStr ''Download cancelled'')]),
           s\<lparr>aborted := insert (abortController sess) (aborted s),
             activeDownloads := AList.delete d (activeDownloads s),
             clients := deliver (JSON_text (cancelled_event d)) (clients s)\<rparr>)"
    by (simp add: post_cancel_def broadcast_serializable)
  then show first: "post_cancel d s =
          ((200, JObject [(''success'', JBool True), (''message'', JStr ''Download cancelled'')]),
           s\<lparr>aborted := insert (abortController sess) (aborted s),
             activeDownloads := AList.delete d (activeDownloads s),
             clients := deliver (JSON_text (JObject [(''type'', JStr ''cancelled''),
                                            (''downloadId'', JStr d),
                                            (''message'', JStr ''Download cancelled'')])) (clients s)\<rparr>)"
    by (simp add: cancelled_event_def)
  show gone: "map_of (activeDownloads (snd (post_cancel d s))) d = None"
    by (simp add: first AList.delete_conv')
  show "post_cancel d (snd (post_cancel d s)) =
            ((404, JObject [(''error'', JStr ''Download not found'')]), snd (post_cancel d s))"
    using gone by (simp add: post_cancel_def)
qed

theorem cancel_found_then_not_found_witness:
  "post_cancel ''17'' one_download =
     ((200, JObject [(''success'', JBool True), (''message'', JStr ''Download cancelled'')]),
      one_download\<lparr>aborted := {0}, activeDownloads := [],
                   clients := [\<lparr>readyState = 1, sent = [JSON_text (JObject [(''type'', JStr ''cancelled''),
                                            (''downloadId'', JStr ''17''),
                                            (''message'', JStr ''Download cancelled'')])]\<rparr>]\<rparr>)
   \<and> fst (post_cancel ''17'' (snd (post_cancel ''17'' one_download)))
       = (404, JObject [(''error'', JStr ''Download not found'')])
   \<and> clients (snd (post_cancel ''17'' (snd (post_cancel ''17'' one_download))))
       = clients (snd (post_cancel ''17'' one_download))
   \<and> post_cancel ''18'' one_download
       = ((404, JObject [(''error'', JStr ''Download not found'')]), one_download)"
proof -
  let ?sess = "\<lparr>downloader = (JStr ''https://example.org/gallery/1'', JObject []),
                 abortController = 0\<rparr>"
  have reg: "map_of (activeDownloads one_download) ''17'' = Some ?sess"
    by (simp add: one_download_def)
  have none: "map_of (activeDownloads one_download) ''18'' = None"
    by (simp add: one_download_def)
  note found = cancel_found_then_not_found [of one_download "''17''" ?sess]
  note missing = cancel_found_then_not_found [of one_download "''18''"]
  have first: "post_cancel ''17'' one_download =
     ((200, JObject [(''success'', JBool True), (''message'', JStr ''Download cancelled'')]),
      one_download\<lparr>aborted := insert (abortController ?sess) (aborted one_download),
        activeDownloads := AList.delete ''17'' (activeDownloads one_download),
        clients := deliver (JSON_text (JObject [(''type'', JStr ''cancelled''),
                                            (''downloadId'', JStr ''17''),
                                            (''message'', JStr ''Download cancelled'')])) (clients one_download)\<rparr>)"
    using found reg by blast
  have second: "post_cancel ''17'' (snd (post_cancel ''17'' one_download)) =
            ((404, JObject [(''error'', JStr ''Download not found'')]),
             snd (post_cancel ''17'' one_download))"
    using found reg by blast
  have third: "post_cancel ''18'' one_download
       = ((404, JObject [(''error'', JStr ''Download not found'')]), one_download)"
    using missing none by blast
  have st: "one_download\<lparr>aborted := insert (abortController ?sess) (aborted one_download),
        activeDownloads := AList.delete ''17'' (activeDownloads one_download),
        clients := deliver (JSON_text (JObject [(''type'', JStr ''cancelled''),
                                            (''downloadId'', JStr ''17''),
                                            (''message'', JStr ''Download cancelled'')])) (clients one_download)\<rparr>
      = one_download\<lparr>aborted := {0}, activeDownloads := [],
                   clients := [\<lparr>readyState = 1, sent = [JSON_text (JObject [(''type'', JStr ''cancelled''),
                                            (''downloadId'', JStr ''17''),
                                            (''message'', JStr ''Download cancelled'')])]\<rparr>]\<rparr>"
    by (simp add: one_download_def deliver_def)
  show ?thesis
    unfolding second third
    unfolding first st
    by simp
qed

section \<open>Validating a path\<close>

text \<open>
  C5. For a non-empty path the answer is 200 and its fields follow the decision table:
  \<open>exists\<close> is what \<^verbatim>\<open>existsSync\<close> says of the path, \<open>parentExists\<close> says that the
  parent exists as a directory, and \<open>valid\<close> and \<open>message\<close> are determined by the
  fields as the five rows of the table say.
\<close>

theorem validate_path_decision_table:
  fixes fs :: node_fs and p :: string
  assumes "p \<noteq> []"
  defines "r \<equiv> snd (validate_path fs (JStr p))"
  shows "fst (validate_path fs (JStr p)) = 200
   \<and> get_prop r ''exists'' = JBool (existsSync fs p)
   \<and> get_prop r ''parentPath'' = JStr (path_parse_dir fs p)
   \<and> get_prop r ''parentExists'' =
        JBool (existsSync fs (path_parse_dir fs p)
               \<and> statSync_isDirectory fs (path_parse_dir fs p) = Inr True)
   \<and> get_prop r ''isDirectory'' = JBool (existsSync fs p \<and> statSync_isDirectory fs p = Inr True)
   \<and> (existsSync fs p \<longrightarrow>
        get_prop r ''writable'' =
          JBool (\<not> isl (statSync_isDirectory fs p) \<and> \<not> isl (accessSync_W_OK fs p)))
   \<and> (get_prop r ''exists'' = JBool True \<and> get_prop r ''isDirectory'' = JBool True
        \<and> get_prop r ''writable'' = JBool True \<longrightarrow>
        get_prop r ''valid'' = JBool True
        \<and> get_prop r ''message'' = JStr ''Directory is valid and writable'')
   \<and> (get_prop r ''exists'' = JBool True \<and> get_prop r ''isDirectory'' = JBool True
        \<and> get_prop r ''writable'' = JBool False \<longrightarrow>
        get_prop r ''valid'' = JBool False
        \<and> get_prop r ''message'' = JStr ''Directory exists but is not writable'')
   \<and> (get_prop r ''exists'' = JBool True \<and> get_prop r ''isDirectory'' = JBool False \<longrightarrow>
        get_prop r ''valid'' = JBool False
        \<and> get_prop r ''message'' = JStr ''Path exists but is not a directory'')
   \<and> (get_prop r ''exists'' = JBool False \<and> get_prop r ''parentExists'' = JBool True \<longrightarrow>
        get_prop r ''valid'' = JBool True
        \<and> get_prop r ''message'' = JStr ''Directory will be created'')
   \<and> (get_prop r ''exists'' = JBool False \<and> get_prop r ''parentExists'' = JBool False \<longrightarrow>
        get_prop r ''valid'' = JBool False
        \<and> get_prop r ''message'' = JStr ''Parent directory does not exist'')"
proof -
  obtain ex isd w where probe:
    "probe_path fs p (probe_parent fs (path_parse_dir fs p)) = (ex, isd, w)"
    by (cases "probe_path fs p (probe_parent fs (path_parse_dir fs p))") auto
  let ?pe = "probe_parent fs (path_parse_dir fs p)"
  have r: "r = JObject
                 [(''valid'', JBool (if ex then isd \<and> w else ?pe)),
                  (''exists'', JBool ex),
                  (''isDirectory'', JBool isd),
                  (''writable'', JBool w),
                  (''parentExists'', JBool ?pe),
                  (''parentPath'', JStr (path_parse_dir fs p)),
                  (''message'', JStr (validation_message ex isd w ?pe))]"
    and st: "fst (validate_path fs (JStr p)) = 200"
    using assms(1) probe by (simp_all add: r_def validate_path_def Let_def)
  have ex: "ex = existsSync fs p"
    using probe by (auto simp: probe_path_def split: if_splits sum.splits)
  have isd: "isd = (existsSync fs p \<and> statSync_isDirectory fs p = Inr True)"
    using probe by (auto simp: probe_path_def split: if_splits sum.splits)
  have w: "existsSync fs p \<Longrightarrow>
             w = (\<not> isl (statSync_isDirectory fs p) \<and> \<not> isl (accessSync_W_OK fs p))"
    using probe by (auto simp: probe_path_def split: if_splits sum.splits)
  have pe: "?pe = (existsSync fs (path_parse_dir fs p)
                   \<and> statSync_isDirectory fs (path_parse_dir fs p) = Inr True)"
    by (auto simp: probe_parent_def split: sum.splits)
  show ?thesis
    unfolding r st
    using ex isd w pe by (simp add: validation_message_def)
qed

theorem validate_path_decision_table_witness:
  "''/ro'' \<noteq> []
   \<and> get_prop (snd (validate_path readonly_parent_fs (JStr ''/ro''))) ''valid'' = JBool False
   \<and> get_prop (snd (validate_path readonly_parent_fs (JStr ''/ro''))) ''message''
       = JStr ''Directory exists but is not writable''
   \<and> get_prop (snd (validate_path readonly_parent_fs (JStr ''/ro/new''))) ''valid'' = JBool True
   \<and> get_prop (snd (validate_path readonly_parent_fs (JStr ''/ro/new''))) ''message''
       = JStr ''Directory will be created''"
proof -
  have h1: "''/ro'' \<noteq> []" and h2: "''/ro/new'' \<noteq> []"
    by simp_all
  have f: "existsSync readonly_parent_fs ''/ro''"
          "\<not> existsSync readonly_parent_fs ''/ro/new''"
          "statSync_isDirectory readonly_parent_fs ''/ro'' = Inr True"
          "isl (accessSync_W_OK readonly_parent_fs ''/ro'')"
          "path_parse_dir readonly_parent_fs ''/ro/new'' = ''/ro''"
    by (simp_all add: readonly_parent_fs_def)
  show ?thesis
    using validate_path_decision_table [OF h1, of readonly_parent_fs]
          validate_path_decision_table [OF h2, of readonly_parent_fs]
    by (simp add: f)
qed

text \<open>
  C6, as the spec states it, fails: for a path that does not exist under a directory
  that cannot be written to, \<open>writable\<close> is reported true.
\<close>

theorem writable_reported_for_readonly_parent:
  "\<not> existsSync readonly_parent_fs ''/ro/new''
   \<and> isl (accessSync_W_OK readonly_parent_fs (path_parse_dir readonly_parent_fs ''/ro/new''))
   \<and> get_prop (snd (validate_path readonly_parent_fs (JStr ''/ro/new''))) ''writable'' = JBool True"
  by (simp add: validate_path_def readonly_parent_fs_def probe_parent_def probe_path_def)

text \<open>
  C6, amended. For a path that does not exist, \<open>writable\<close> equals \<open>parentExists\<close>:
  whether the parent exists as a directory. No writability probe is made: the answer does
  not depend on what \<^verbatim>\<open>accessSync\<close> says of any path.
\<close>

theorem writable_is_parentExists:
  assumes "p \<noteq> []" and "\<not> existsSync fs p"
  shows "get_prop (snd (validate_path fs (JStr p))) ''writable''
           = get_prop (snd (validate_path fs (JStr p))) ''parentExists''
   \<and> get_prop (snd (validate_path fs (JStr p))) ''writable''
       = JBool (existsSync fs (path_parse_dir fs p)
                \<and> statSync_isDirectory fs (path_parse_dir fs p) = Inr True)
   \<and> validate_path (fs\<lparr>accessSync_W_OK := probe\<rparr>) (JStr p) = validate_path fs (JStr p)"
proof -
  let ?pe = "probe_parent fs (path_parse_dir fs p)"
  have pp: "probe_path fs p ?pe = (False, False, ?pe)"
    using assms(2) by (simp add: probe_path_def)
  have pp': "probe_path (fs\<lparr>accessSync_W_OK := probe\<rparr>) p ?pe = (False, False, ?pe)"
    using assms(2) by (simp add: probe_path_def)
  have par: "probe_parent (fs\<lparr>accessSync_W_OK := probe\<rparr>) (path_parse_dir fs p) = ?pe"
    by (simp add: probe_parent_def)
  have pe: "?pe = (existsSync fs (path_parse_dir fs p)
                   \<and> statSync_isDirectory fs (path_parse_dir fs p) = Inr True)"
    by (auto simp: probe_parent_def split: sum.splits)
  have w: "get_prop (snd (validate_path fs (JStr p))) ''writable'' = JBool ?pe"
    using assms(1) by (simp add: validate_path_def Let_def pp)
  have e: "get_prop (snd (validate_path fs (JStr p))) ''parentExists'' = JBool ?pe"
    using assms(1) by (simp add: validate_path_def Let_def pp)
  have same: "validate_path (fs\<lparr>accessSync_W_OK := probe\<rparr>) (JStr p) = validate_path fs (JStr p)"
    using assms(1) by (simp add: validate_path_def Let_def pp pp' par)
  show ?thesis
    using w e same pe by simp
qed

theorem writable_is_parentExists_witness:
  "''/ro/new'' \<noteq> [] \<and> \<not> existsSync readonly_parent_fs ''/ro/new''
   \<and> get_prop (snd (validate_path readonly_parent_fs (JStr ''/ro/new''))) ''writable''
       = get_prop (snd (validate_path readonly_parent_fs (JStr ''/ro/new''))) ''parentExists''
   \<and> get_prop (snd (validate_path readonly_parent_fs (JStr ''/ro/new''))) ''writable'' = JBool True"
proof -
  have h1: "''/ro/new'' \<noteq> []" by simp
  have h2: "\<not> existsSync readonly_parent_fs ''/ro/new''"
    by (simp add: readonly_parent_fs_def)
  have f: "existsSync readonly_parent_fs ''/ro''"
          "statSync_isDirectory readonly_parent_fs ''/ro'' = Inr True"
          "path_parse_dir readonly_parent_fs ''/ro/new'' = ''/ro''"
    by (simp_all add: readonly_parent_fs_def)
  show ?thesis
    using writable_is_parentExists [OF h1 h2, of "accessSync_W_OK readonly_parent_fs"] h2
    by (auto simp: f)
qed

section \<open>Creating a download\<close>

lemma get_prop_coalesce_default:
  "nullish a \<Longrightarrow> coalesce a b = b"
  by (simp add: coalesce_def)

lemma post_download_registers:
  assumes "truthy (url body)" and "truthy (outDir body)"
  shows "post_download now None body s =
     ((200, JObject [(''success'', JBool True),
                     (''downloadId'', JStr (Number_toString now)),
                     (''message'', JStr ''Download started'')]),
      s\<lparr>controllers := Suc (controllers s),
        activeDownloads :=
          AList.update (Number_toString now)
            \<lparr>downloader = (url body, downloader_options (outDir body) (options body)),
             abortController = controllers s\<rparr>
            (activeDownloads s),
        pending := (pending s)(controllers s \<mapsto> Number_toString now)\<rparr>)"
  using assms by (simp add: post_download_def Let_def)

text \<open>
  C10. The downloader of an accepted request is built with the options object in which
  every option that the request leaves out (undefined, or \<^verbatim>\<open>null\<close>) has its fixed
  default.
\<close>

theorem downloader_option_defaults:
  fixes opts :: jsval and out_dir :: jsval
  defines "cfg \<equiv> downloader_options out_dir opts"
  shows
  "(truthy (url body) \<and> truthy (outDir body) \<longrightarrow>
      map_of (activeDownloads (snd (post_download now None body s))) (Number_toString now)
        = Some \<lparr>downloader = (url body, downloader_options (outDir body) (options body)),
                abortController = controllers s\<rparr>)
   \<and> (nullish (opt_chain opts ''overwrite'') \<longrightarrow> get_prop cfg ''overwrite'' = JBool False)
   \<and> (nullish (opt_chain opts ''seqFilenames'') \<longrightarrow> get_prop cfg ''seqFilenames'' = JBool False)
   \<and> (nullish (opt_chain opts ''fullFilenames'') \<longrightarrow> get_prop cfg ''fullFilenames'' = JBool False)
   \<and> (nullish (opt_chain opts ''saveJSON'') \<longrightarrow> get_prop cfg ''saveJSON'' = JBool True)
   \<and> (nullish (opt_chain opts ''saveHTML'') \<longrightarrow> get_prop cfg ''saveHTML'' = JBool False)
   \<and> (nullish (opt_chain (opt_chain opts ''dirStructure'') ''user'') \<longrightarrow>
        get_prop (get_prop cfg ''dirStructure'') ''user'' = JBool True)
   \<and> (nullish (opt_chain (opt_chain opts ''dirStructure'') ''favorites'') \<longrightarrow>
        get_prop (get_prop cfg ''dirStructure'') ''favorites'' = JBool True)
   \<and> (nullish (opt_chain (opt_chain opts ''dirStructure'') ''folder'') \<longrightarrow>
        get_prop (get_prop cfg ''dirStructure'') ''folder'' = JBool True)
   \<and> (nullish (opt_chain (opt_chain opts ''dirStructure'') ''gallery'') \<longrightarrow>
        get_prop (get_prop cfg ''dirStructure'') ''gallery'' = JBool True)
   \<and> (nullish (opt_chain (opt_chain opts ''request'') ''maxRetries'') \<longrightarrow>
        get_prop (get_prop cfg ''request'') ''maxRetries'' = JNum 3)
   \<and> (nullish (opt_chain (opt_chain opts ''request'') ''maxConcurrent'') \<longrightarrow>
        get_prop (get_prop cfg ''request'') ''maxConcurrent'' = JNum 10)
   \<and> (nullish (opt_chain (opt_chain (opt_chain opts ''request'') ''minTime'') ''page'') \<longrightarrow>
        get_prop (get_prop (get_prop cfg ''request'') ''minTime'') ''page'' = JNum 200)
   \<and> (nullish (opt_chain (opt_chain (opt_chain opts ''request'') ''minTime'') ''image'') \<longrightarrow>
        get_prop (get_prop (get_prop cfg ''request'') ''minTime'') ''image'' = JNum 200)"
proof -
  have reg: "truthy (url body) \<and> truthy (outDir body) \<longrightarrow>
      map_of (activeDownloads (snd (post_download now None body s))) (Number_toString now)
        = Some \<lparr>downloader = (url body, downloader_options (outDir body) (options body)),
                abortController = controllers s\<rparr>"
    by (simp add: post_download_registers AList.update_conv')
  have top: "\<And>k d. nullish (opt_chain opts k) \<Longrightarrow>
               get_prop (JObject [(k, coalesce (opt_chain opts k) d)]) k = d"
    by (simp add: coalesce_def)
  show ?thesis
    unfolding cfg_def
    apply (intro conjI)
    subgoal by (rule reg)
    subgoal by (simp add: downloader_options_def coalesce_def)
    subgoal by (simp add: downloader_options_def coalesce_def)
    subgoal by (simp add: downloader_options_def coalesce_def)
    subgoal by (simp add: downloader_options_def coalesce_def)
    subgoal by (simp add: downloader_options_def coalesce_def)
    subgoal by (simp add: downloader_options_def coalesce_def)
    subgoal by (simp add: downloader_options_def coalesce_def)
    subgoal by (simp add: downloader_options_def coalesce_def)
    subgoal by (simp add: downloader_options_def coalesce_def)
    subgoal by (simp add: downloader_options_def coalesce_def)
    subgoal by (simp add: downloader_options_def coalesce_def)
    subgoal by (simp add: downloader_options_def coalesce_def)
    subgoal by (simp add: downloader_options_def coalesce_def)
    done
qed

theorem downloader_option_defaults_witness:
  "downloader_options (JStr ''/data/a'') JUndefined =
     JObject
       [(''outDir'', JStr ''/data/a''),
        (''overwrite'', JBool False),
        (''seqFilenames'', JBool False),
        (''fullFilenames'', JBool False),
        (''saveJSON'', JBool True),
        (''saveHTML'', JBool False),
        (''dirStructure'', JObject
           [(''user'', JBool True), (''favorites'', JBool True),
            (''folder'', JBool True), (''gallery'', JBool True)]),
        (''request'', JObject
           [(''maxRetries'', JNum 3),
            (''maxConcurrent'', JNum 10),
            (''minTime'', JObject [(''page'', JNum 200), (''image'', JNum 200)])])]
   \<and> get_prop (downloader_options (JStr ''/data/a'') JUndefined) ''saveJSON'' = JBool True
   \<and> get_prop (get_prop (get_prop (downloader_options (JStr ''/data/a'') JUndefined) ''request'')
         ''minTime'') ''page'' = JNum 200
   \<and> map_of (activeDownloads (snd (post_download 17 None request0 init))) (Number_toString 17)
       = Some \<lparr>downloader = (url request0, downloader_options (outDir request0) (options request0)),
               abortController = controllers init\<rparr>"
proof -
  have n: "\<And>k. nullish (opt_chain JUndefined k)"
          "\<And>k j. nullish (opt_chain (opt_chain JUndefined k) j)"
          "\<And>k j i. nullish (opt_chain (opt_chain (opt_chain JUndefined k) j) i)"
    by (simp_all add: opt_chain_def)
  have t: "truthy (url request0) \<and> truthy (outDir request0)"
    by (simp add: request0_def)
  have lit: "downloader_options (JStr ''/data/a'') JUndefined =
     JObject
       [(''outDir'', JStr ''/data/a''),
        (''overwrite'', JBool False),
        (''seqFilenames'', JBool False),
        (''fullFilenames'', JBool False),
        (''saveJSON'', JBool True),
        (''saveHTML'', JBool False),
        (''dirStructure'', JObject
           [(''user'', JBool True), (''favorites'', JBool True),
            (''folder'', JBool True), (''gallery'', JBool True)]),
        (''request'', JObject
           [(''maxRetries'', JNum 3),
            (''maxConcurrent'', JNum 10),
            (''minTime'', JObject [(''page'', JNum 200), (''image'', JNum 200)])])]"
    by (simp add: downloader_options_def opt_chain_def coalesce_def)
  note d = downloader_option_defaults [of request0 17 init JUndefined "JStr ''/data/a''"]
  have a: "get_prop (downloader_options (JStr ''/data/a'') JUndefined) ''saveJSON'' = JBool True"
    using d n by blast
  have b: "get_prop (get_prop (get_prop (downloader_options (JStr ''/data/a'') JUndefined) ''request'')
         ''minTime'') ''page'' = JNum 200"
    using d n by blast
  have c: "map_of (activeDownloads (snd (post_download 17 None request0 init))) (Number_toString 17)
       = Some \<lparr>downloader = (url request0, downloader_options (outDir request0) (options request0)),
               abortController = controllers init\<rparr>"
    using d t by blast
  show ?thesis
    using lit a b c by blast
qed

text \<open>
  C1 does not hold of the code: the identifier is the clock's reading in milliseconds,
  so two accepted requests handled at the same reading get the same identifier, and the
  second registration replaces the first one in the registry.
\<close>

theorem create_same_clock_same_identifier:
  "fst (post_download 1700000000000 None request0 init)
     = (200, JObject [(''success'', JBool True),
                      (''downloadId'', JStr ''1700000000000''),
                      (''message'', JStr ''Download started'')])
   \<and> fst (post_download 1700000000000 None request1
            (snd (post_download 1700000000000 None request0 init)))
     = (200, JObject [(''success'', JBool True),
                      (''downloadId'', JStr ''1700000000000''),
                      (''message'', JStr ''Download started'')])
   \<and> list_ids (snd (post_download 1700000000000 None request1
                      (snd (post_download 1700000000000 None request0 init))))
     = [''1700000000000'']
   \<and> map_of (activeDownloads (snd (post_download 1700000000000 None request1
                      (snd (post_download 1700000000000 None request0 init)))))
        ''1700000000000''
     = Some \<lparr>downloader = (url request1, downloader_options (outDir request1) (options request1)),
             abortController = 1\<rparr>"
proof -
  have n: "Number_toString 1700000000000 = ''1700000000000''"
    by (simp add: Number_toString_def digits.simps)
  have t0: "truthy (url request0)" "truthy (outDir request0)"
    and t1: "truthy (url request1)" "truthy (outDir request1)"
    by (simp_all add: request0_def request1_def)
  show ?thesis
    unfolding post_download_registers [OF t0] post_download_registers [OF t1] n
    by (simp add: list_ids_def init_def)
qed

theorem create_same_clock_same_identifier_witness:
  "truthy (url request0) \<and> truthy (outDir request0)
   \<and> truthy (url request1) \<and> truthy (outDir request1)
   \<and> fst (post_download 1700000000000 None request1
            (snd (post_download 1700000000000 None request0 init)))
     = fst (post_download 1700000000000 None request0 init)"
  using create_same_clock_same_identifier
  by (simp add: request0_def request1_def)

section \<open>The registry over the turns of the event loop\<close>

lemma settle_fields:
  "activeDownloads (settle d k out s) = AList.delete d (activeDownloads s)"
  "aborted (settle d k out s) = aborted s"
  "controllers (settle d k out s) = controllers s"
  "pending (settle d k out s) = pending s"
  "clients (settle d k out s) =
     (case out of
        Fulfilled \<Rightarrow> deliver (JSON_text (complete_event d)) (clients s)
      | Rejected e \<Rightarrow>
          (if k \<in> aborted s then clients s
           else deliver (JSON_text (error_event d e)) (clients s)))"
  by (simp_all add: settle_def on_fulfilled_def on_rejected_def broadcast_serializable
        split: outcome.splits)

lemma settle_eq:
  "settle d k out s =
     s\<lparr>clients :=
         (case out of
            Fulfilled \<Rightarrow> deliver (JSON_text (complete_event d)) (clients s)
          | Rejected e \<Rightarrow>
              (if k \<in> aborted s then clients s
               else deliver (JSON_text (error_event d e)) (clients s))),
       activeDownloads := AList.delete d (activeDownloads s)\<rparr>"
  by (simp add: settle_def on_fulfilled_def on_rejected_def broadcast_serializable
        split: outcome.splits)

lemma post_cancel_fields:
  "controllers (snd (post_cancel d s)) = controllers s"
  "pending (snd (post_cancel d s)) = pending s"
  "activeDownloads (snd (post_cancel d s)) = AList.delete d (activeDownloads s)"
  "aborted (snd (post_cancel d s)) =
     (case map_of (activeDownloads s) d of
        None \<Rightarrow> aborted s
      | Some sess \<Rightarrow> insert (abortController sess) (aborted s))"
proof -
  show "controllers (snd (post_cancel d s)) = controllers s"
    by (simp add: post_cancel_def broadcast_serializable Let_def split: option.splits)
  show "pending (snd (post_cancel d s)) = pending s"
    by (simp add: post_cancel_def broadcast_serializable Let_def split: option.splits)
  show "aborted (snd (post_cancel d s)) =
     (case map_of (activeDownloads s) d of
        None \<Rightarrow> aborted s
      | Some sess \<Rightarrow> insert (abortController sess) (aborted s))"
    by (simp add: post_cancel_def broadcast_serializable Let_def split: option.splits)
  show "activeDownloads (snd (post_cancel d s)) = AList.delete d (activeDownloads s)"
  proof (cases "map_of (activeDownloads s) d")
    case None
    then have "d \<notin> fst ` set (activeDownloads s)"
      by (simp add: map_of_eq_None_iff)
    then show ?thesis
      using None by (simp add: post_cancel_def)
  next
    case (Some sess)
    then show ?thesis
      by (simp add: post_cancel_def broadcast_serializable Let_def)
  qed
qed

lemma post_download_fields:
  "aborted (snd (post_download now c body s)) = aborted s"
  "clients (snd (post_download now c body s)) = clients s"
  "controllers s \<le> controllers (snd (post_download now c body s))"
  by (simp_all add: post_download_def Let_def split: option.splits)

lemma post_download_pending:
  "pending (snd (post_download now c body s)) k = Some d \<Longrightarrow>
     pending s k = Some d \<or> k = controllers s"
  by (auto simp: post_download_def Let_def split: option.splits if_splits)

lemma registry_ok_init: "registry_ok init"
  by (simp add: registry_ok_def init_def)

lemma registry_ok_post_download:
  assumes "registry_ok s"
  shows "registry_ok (snd (post_download now c body s))"
proof (cases "truthy (url body) \<and> truthy (outDir body)")
  case False
  then show ?thesis
    using assms by (auto simp: post_download_def)
next
  case True
  show ?thesis
  proof (cases c)
    case (Some e)
    then show ?thesis
      using assms True
      by (auto simp: post_download_def Let_def registry_ok_def less_Suc_eq)
  next
    case None
    have fresh: "\<And>d sess. map_of (activeDownloads s) d = Some sess \<Longrightarrow>
                    abortController sess \<noteq> controllers s"
      using assms unfolding registry_ok_def by (metis less_irrefl)
    have nab: "controllers s \<notin> aborted s"
      using assms unfolding registry_ok_def by (metis less_irrefl)
    show ?thesis
      using assms True None fresh nab
      unfolding registry_ok_def
      by (auto simp: post_download_registers update_conv' less_Suc_eq split: if_splits)
  qed
qed

lemma registry_ok_post_cancel:
  assumes "registry_ok s"
  shows "registry_ok (snd (post_cancel d s))"
proof (cases "map_of (activeDownloads s) d")
  case None
  then show ?thesis
    using assms by (simp add: post_cancel_def)
next
  case (Some sess)
  have other: "\<And>d' sess'. d' \<noteq> d \<Longrightarrow> map_of (activeDownloads s) d' = Some sess' \<Longrightarrow>
                  abortController sess' \<noteq> abortController sess"
    using assms Some unfolding registry_ok_def by (metis option.inject)
  show ?thesis
    using assms Some other
    unfolding registry_ok_def post_cancel_fields
    by (auto simp: delete_conv')
qed

lemma registry_ok_settle:
  assumes "registry_ok s" and "pending s k = Some d"
  shows "registry_ok (settle d k out (s\<lparr>pending := (pending s)(k := None)\<rparr>))"
proof -
  have other: "\<And>d' sess'. d' \<noteq> d \<Longrightarrow> map_of (activeDownloads s) d' = Some sess' \<Longrightarrow>
                  abortController sess' \<noteq> k"
    using assms unfolding registry_ok_def by (metis option.inject)
  show ?thesis
    using assms other
    unfolding registry_ok_def settle_fields
    by (auto simp: delete_conv')
qed

lemma registry_ok_step:
  assumes "registry_ok s" and "step ui s a = Some s'"
  shows "registry_ok s'"
proof (cases a)
  case (Create now c body)
  then show ?thesis
    using assms registry_ok_post_download by auto
next
  case (Cancel d)
  then show ?thesis
    using assms registry_ok_post_cancel by auto
next
  case (Settle k out)
  then show ?thesis
    using assms registry_ok_settle by (auto split: option.splits)
next
  case (Log e)
  then show ?thesis
    using assms by (auto simp: registry_ok_def split: sum.splits)
next
  case Connect
  then show ?thesis
    using assms by (auto simp: registry_ok_def)
next
  case (Close i)
  then show ?thesis
    using assms by (auto simp: registry_ok_def split: if_splits)
qed

lemma run_snoc:
  "run ui s (as @ [a]) = (case run ui s as of None \<Rightarrow> None | Some s' \<Rightarrow> step ui s' a)"
  by (induction as arbitrary: s) (simp_all split: option.splits)

lemma registry_ok_run:
  "registry_ok s \<Longrightarrow> run ui s as = Some s' \<Longrightarrow> registry_ok s'"
proof (induction as arbitrary: s)
  case Nil
  then show ?case by simp
next
  case (Cons a as)
  then show ?case
    by (auto split: option.splits dest: registry_ok_step)
qed

lemma step_aborted_mono:
  "step ui s a = Some s' \<Longrightarrow> aborted s \<subseteq> aborted s'"
  by (cases a)
     (auto simp: post_download_fields post_cancel_fields settle_fields
           split: option.splits sum.splits if_splits)

lemma run_aborted_mono:
  "run ui s as = Some s' \<Longrightarrow> aborted s \<subseteq> aborted s'"
proof (induction as arbitrary: s)
  case Nil
  then show ?case by simp
next
  case (Cons a as)
  then show ?case
    by (auto split: option.splits dest!: step_aborted_mono)
qed

lemma step_aborted_pending:
  assumes "registry_ok s" and "step ui s a = Some s'"
    and "pending s' k = Some d" and "k \<in> aborted s'"
  shows "(pending s k = Some d \<and> k \<in> aborted s) \<or> a = Cancel d"
proof (cases a)
  case (Create now c body)
  have "k \<in> aborted s"
    using assms(2,4) Create by (auto simp: post_download_fields)
  moreover have "k \<noteq> controllers s"
    using assms(1) \<open>k \<in> aborted s\<close> unfolding registry_ok_def by (metis less_irrefl)
  ultimately show ?thesis
    using assms(2,3) Create post_download_pending [of now c body s k d] by auto
next
  case (Cancel d')
  show ?thesis
  proof (cases "map_of (activeDownloads s) d'")
    case None
    then show ?thesis
      using assms Cancel by (auto simp: post_cancel_fields)
  next
    case (Some sess)
    have p: "pending s k = Some d"
      using assms(2,3) Cancel by (auto simp: post_cancel_fields)
    have reg: "pending s (abortController sess) = Some d'"
      using assms(1) Some unfolding registry_ok_def by blast
    show ?thesis
      using assms(2,4) Cancel Some p reg by (auto simp: post_cancel_fields)
  qed
next
  case (Settle k' out)
  then show ?thesis
    using assms by (auto simp: settle_fields split: option.splits if_splits)
next
  case (Log e)
  then show ?thesis
    using assms by (auto split: sum.splits)
next
  case Connect
  then show ?thesis
    using assms by auto
next
  case (Close i)
  then show ?thesis
    using assms by (auto split: if_splits)
qed

lemma aborted_only_by_cancel:
  "run ui init as = Some s \<Longrightarrow> pending s k = Some d \<Longrightarrow> k \<in> aborted s \<Longrightarrow> Cancel d \<in> set as"
proof (induction as arbitrary: s rule: rev_induct)
  case Nil
  then show ?case by (auto simp: init_def)
next
  case (snoc a as)
  from snoc.prems(1) obtain s0 where r0: "run ui init as = Some s0" and st: "step ui s0 a = Some s"
    by (auto simp: run_snoc split: option.splits)
  have ok: "registry_ok s0"
    using registry_ok_run [OF registry_ok_init r0] .
  from step_aborted_pending [OF ok st snoc.prems(2,3)]
  show ?case
  proof
    assume "pending s0 k = Some d \<and> k \<in> aborted s0"
    then have "Cancel d \<in> set as"
      using snoc.IH [OF r0] by blast
    then show ?thesis by simp
  next
    assume "a = Cancel d"
    then show ?thesis by simp
  qed
qed

lemma listed_is_registered:
  "d \<in> set (list_ids s) \<Longrightarrow> \<exists>sess. map_of (activeDownloads s) d = Some sess"
  by (cases "map_of (activeDownloads s) d") (auto simp: list_ids_def map_of_eq_None_iff)

lemma deleted_not_listed:
  "activeDownloads s' = AList.delete d (activeDownloads s) \<Longrightarrow> d \<notin> set (list_ids s')"
  by (simp add: list_ids_def delete_keys)

lemma step_Settle:
  "pending s k = Some d \<Longrightarrow>
     step ui s (Settle k out) = Some (settle d k out (s\<lparr>pending := (pending s)(k := None)\<rparr>))"
  by simp

text \<open>
  C2. After any sequence of turns, every identifier that the list answers is registered
  to a session that is live: its promise is still pending under that identifier and its
  controller is not aborted. The turn in which a session's promise settles, and the turn
  in which a cancel is accepted, leave the identifier unlisted and the session not live.
\<close>

theorem registry_holds_live_sessions:
  assumes "run ui init as = Some s"
  shows "(\<forall>d \<in> set (list_ids s).
            \<exists>sess. map_of (activeDownloads s) d = Some sess
              \<and> pending s (abortController sess) = Some d
              \<and> live s (abortController sess))
   \<and> (\<forall>k d out. pending s k = Some d \<longrightarrow>
          (\<exists>s'. step ui s (Settle k out) = Some s' \<and> d \<notin> set (list_ids s') \<and> \<not> live s' k))
   \<and> (\<forall>d sess. map_of (activeDownloads s) d = Some sess \<longrightarrow>
          d \<notin> set (list_ids (snd (post_cancel d s)))
          \<and> \<not> live (snd (post_cancel d s)) (abortController sess))"
proof (intro conjI ballI allI impI)
  have ok: "registry_ok s"
    using registry_ok_run [OF registry_ok_init assms] .
  fix d
  assume "d \<in> set (list_ids s)"
  then obtain sess where reg: "map_of (activeDownloads s) d = Some sess"
    using listed_is_registered by blast
  then have "pending s (abortController sess) = Some d" and "abortController sess \<notin> aborted s"
    using ok unfolding registry_ok_def by blast+
  then show "\<exists>sess. map_of (activeDownloads s) d = Some sess
              \<and> pending s (abortController sess) = Some d
              \<and> live s (abortController sess)"
    using reg by (auto simp: live_def)
next
  fix k d out
  assume p: "pending s k = Some d"
  let ?s' = "settle d k out (s\<lparr>pending := (pending s)(k := None)\<rparr>)"
  have "step ui s (Settle k out) = Some ?s'"
    using p by (rule step_Settle)
  moreover have "d \<notin> set (list_ids ?s')"
    by (rule deleted_not_listed [where s = "s\<lparr>pending := (pending s)(k := None)\<rparr>"])
       (simp add: settle_fields)
  moreover have "\<not> live ?s' k"
    by (simp add: live_def settle_fields)
  ultimately show "\<exists>s'. step ui s (Settle k out) = Some s' \<and> d \<notin> set (list_ids s') \<and> \<not> live s' k"
    by blast
next
  fix d sess
  assume reg: "map_of (activeDownloads s) d = Some sess"
  show "d \<notin> set (list_ids (snd (post_cancel d s)))"
    by (rule deleted_not_listed [where s = s]) (simp add: post_cancel_fields)
  show "\<not> live (snd (post_cancel d s)) (abortController sess)"
    using reg by (simp add: live_def post_cancel_fields)
qed

lemma Number_toString_17_18:
  "Number_toString 17 = ''17''" "Number_toString 18 = ''18''"
  by (simp_all add: Number_toString_def digits.simps)

lemma requests_valid:
  "truthy (url request0)" "truthy (outDir request0)"
  "truthy (url request1)" "truthy (outDir request1)"
  by (simp_all add: request0_def request1_def)

lemma run_trace_two:
  "run inspect_stub init trace_two =
     Some \<lparr>activeDownloads =
              [(''18'', \<lparr>downloader = (url request1, downloader_options (outDir request1) (options request1)),
                        abortController = 1\<rparr>)],
            aborted = {},
            controllers = 2,
            pending = [0 \<mapsto> ''17'', 1 \<mapsto> ''18''](0 := None),
            clients = [\<lparr>readyState = 1, sent = [JSON_text (complete_event ''17'')]\<rparr>]\<rparr>"
  by (simp add: trace_two_def init_def post_download_registers requests_valid
        Number_toString_17_18 settle_eq deliver_def)

theorem registry_holds_live_sessions_witness:
  "list_ids (the (run inspect_stub init trace_two)) = [''18'']
   \<and> live (the (run inspect_stub init trace_two)) 1
   \<and> \<not> live (the (run inspect_stub init trace_two)) 0"
proof -
  let ?s = "the (run inspect_stub init trace_two)"
  have r: "run inspect_stub init trace_two = Some ?s"
    by (simp add: run_trace_two)
  have l: "list_ids ?s = [''18'']"
    by (simp add: run_trace_two list_ids_def)
  have reg: "map_of (activeDownloads ?s) ''18''
      = Some \<lparr>downloader = (url request1, downloader_options (outDir request1) (options request1)),
               abortController = 1\<rparr>"
    by (simp add: run_trace_two)
  have "\<exists>sess. map_of (activeDownloads ?s) ''18'' = Some sess
          \<and> pending ?s (abortController sess) = Some ''18''
          \<and> live ?s (abortController sess)"
    using registry_holds_live_sessions [OF r] l by simp
  then have "live ?s 1"
    using reg by auto
  moreover have "\<not> live ?s 0"
    by (simp add: run_trace_two live_def)
  ultimately show ?thesis
    using l by simp
qed

text \<open>
  What the \<^verbatim>\<open>catch\<close> handler does for the session whose controller it captured: after
  a cancel that was accepted for that session, its failure publishes nothing, in whatever
  later turn it comes; while the controller is not aborted, its failure publishes the
  \<^verbatim>\<open>error\<close> event with the captured identifier.
\<close>

lemma rejection_after_cancel_of_session:
  assumes "map_of (activeDownloads s) d = Some sess"
    and "run ui (snd (post_cancel d s)) as = Some s2"
    and "pending s2 (abortController sess) = Some d2"
  shows "\<exists>s3. step ui s2 (Settle (abortController sess) (Rejected err)) = Some s3
                \<and> clients s3 = clients s2 \<and> d2 \<notin> set (list_ids s3)"
proof -
  let ?k = "abortController sess"
  have "?k \<in> aborted (snd (post_cancel d s))"
    using assms(1) by (simp add: post_cancel_fields)
  then have ab: "?k \<in> aborted s2"
    using run_aborted_mono [OF assms(2)] by blast
  let ?s3 = "settle d2 ?k (Rejected err) (s2\<lparr>pending := (pending s2)(?k := None)\<rparr>)"
  have "step ui s2 (Settle ?k (Rejected err)) = Some ?s3"
    using assms(3) by (rule step_Settle)
  moreover have "clients ?s3 = clients s2"
    using ab by (simp add: settle_fields)
  moreover have "d2 \<notin> set (list_ids ?s3)"
    by (rule deleted_not_listed [where s = "s2\<lparr>pending := (pending s2)(?k := None)\<rparr>"])
       (simp add: settle_fields)
  ultimately show ?thesis
    by blast
qed

lemma rejection_of_session_not_cancelled:
  assumes "pending t k = Some d" and "k \<notin> aborted t"
  shows "\<exists>t'. step ui t (Settle k (Rejected err)) = Some t'
           \<and> clients t' =
               deliver
                 (JSON_text (JObject [(''type'', JStr ''error''),
                                      (''downloadId'', JStr d),
                                      (''message'', JStr (message_or err ''Unknown error occurred''))]))
                 (clients t)"
proof -
  let ?t' = "settle d k (Rejected err) (t\<lparr>pending := (pending t)(k := None)\<rparr>)"
  have "step ui t (Settle k (Rejected err)) = Some ?t'"
    using assms(1) by (rule step_Settle)
  moreover have "clients ?t' = deliver (JSON_text (error_event d err)) (clients t)"
    using assms(2) by (simp add: settle_fields)
  ultimately show ?thesis
    by (simp add: error_event_def)
qed

lemma run_append:
  "run ui s (as @ bs) = (case run ui s as of None \<Rightarrow> None | Some s' \<Rightarrow> run ui s' bs)"
  by (induction as arbitrary: s) (simp_all split: option.splits)

lemma Number_toString_clock:
  "Number_toString 1700000000000 = ''1700000000000''"
  by (simp add: Number_toString_def digits.simps)

lemma run_shared_created:
  "run inspect_stub init shared_created =
     Some \<lparr>activeDownloads =
              [(''1700000000000'',
                \<lparr>downloader = (url request1, downloader_options (outDir request1) (options request1)),
                 abortController = 1\<rparr>)],
            aborted = {},
            controllers = 2,
            pending = [0 \<mapsto> ''1700000000000'', 1 \<mapsto> ''1700000000000''],
            clients = [\<lparr>readyState = 1, sent = []\<rparr>]\<rparr>"
  by (simp add: shared_created_def init_def post_download_registers requests_valid
        Number_toString_clock)

lemma post_cancel_shared:
  "post_cancel ''1700000000000'' (the (run inspect_stub init shared_created)) =
     ((200, JObject [(''success'', JBool True), (''message'', JStr ''Download cancelled'')]),
      \<lparr>activeDownloads = [],
       aborted = {1},
       controllers = 2,
       pending = [0 \<mapsto> ''1700000000000'', 1 \<mapsto> ''1700000000000''],
       clients = [\<lparr>readyState = 1, sent = [JSON_text (cancelled_event ''1700000000000'')]\<rparr>]\<rparr>)"
  unfolding run_shared_created option.sel
  by (simp add: post_cancel_def JSON_stringify_def)

lemma run_shared_cancelled:
  "run inspect_stub init (shared_created @ [Cancel ''1700000000000'']) =
     Some \<lparr>activeDownloads = [],
            aborted = {1},
            controllers = 2,
            pending = [0 \<mapsto> ''1700000000000'', 1 \<mapsto> ''1700000000000''],
            clients = [\<lparr>readyState = 1, sent = [JSON_text (cancelled_event ''1700000000000'')]\<rparr>]\<rparr>"
proof -
  have "run inspect_stub init (shared_created @ [Cancel ''1700000000000''])
          = Some (snd (post_cancel ''1700000000000'' (the (run inspect_stub init shared_created))))"
    by (simp add: run_append run_shared_created)
  then show ?thesis
    by (simp only: post_cancel_shared snd_conv)
qed

lemma run_shared_failed:
  "run inspect_stub init
     (shared_created @ [Cancel ''1700000000000'', Settle 0 (Rejected boom)]) =
     Some \<lparr>activeDownloads = [],
            aborted = {1},
            controllers = 2,
            pending = [0 \<mapsto> ''1700000000000'', 1 \<mapsto> ''1700000000000''](0 := None),
            clients = [\<lparr>readyState = 1,
                        sent = [JSON_text (cancelled_event ''1700000000000''),
                                JSON_text (error_event ''1700000000000'' boom)]\<rparr>]\<rparr>"
proof -
  have split: "shared_created @ [Cancel ''1700000000000'', Settle 0 (Rejected boom)]
                 = (shared_created @ [Cancel ''1700000000000'']) @ [Settle 0 (Rejected boom)]"
    by simp
  have "run inspect_stub init
          ((shared_created @ [Cancel ''1700000000000'']) @ [Settle 0 (Rejected boom)])
        = (case run inspect_stub init (shared_created @ [Cancel ''1700000000000'']) of
             None \<Rightarrow> None
           | Some s' \<Rightarrow> step inspect_stub s' (Settle 0 (Rejected boom)))"
    by (rule run_snoc)
  then show ?thesis
    unfolding split run_shared_cancelled
    by (simp add: settle_eq deliver_def)
qed

text \<open>
  C4 does not hold of the code. Two sessions created at the same clock reading share the
  identifier (the defect of C1); the cancel of that identifier is accepted and aborts the
  controller of the session registered last; the failure of the other session, which has
  the same identifier, then publishes the \<^verbatim>\<open>error\<close> event after the \<^verbatim>\<open>cancelled\<close> one.
\<close>

theorem failure_after_cancel_of_shared_identifier:
  "run inspect_stub init shared_created \<noteq> None
   \<and> fst (post_cancel ''1700000000000'' (the (run inspect_stub init shared_created)))
       = (200, JObject [(''success'', JBool True), (''message'', JStr ''Download cancelled'')])
   \<and> pending (the (run inspect_stub init (shared_created @ [Cancel ''1700000000000''])))  0
       = Some ''1700000000000''
   \<and> run inspect_stub init
         (shared_created @ [Cancel ''1700000000000'', Settle 0 (Rejected boom)]) \<noteq> None
   \<and> clients (the (run inspect_stub init
                      (shared_created @ [Cancel ''1700000000000'', Settle 0 (Rejected boom)])))
       = [\<lparr>readyState = 1,
           sent = [JSON_text (JObject [(''type'', JStr ''cancelled''),
                                       (''downloadId'', JStr ''1700000000000''),
                                       (''message'', JStr ''Download cancelled'')]),
                   JSON_text (JObject [(''type'', JStr ''error''),
                                       (''downloadId'', JStr ''1700000000000''),
                                       (''message'', JStr ''connection reset'')])]\<rparr>]"
proof (intro conjI)
  show "run inspect_stub init shared_created \<noteq> None"
    by (simp add: run_shared_created)
  show "fst (post_cancel ''1700000000000'' (the (run inspect_stub init shared_created)))
       = (200, JObject [(''success'', JBool True), (''message'', JStr ''Download cancelled'')])"
    by (simp only: post_cancel_shared fst_conv)
  show "pending (the (run inspect_stub init (shared_created @ [Cancel ''1700000000000''])))  0
       = Some ''1700000000000''"
    unfolding run_shared_cancelled option.sel by simp
  show "run inspect_stub init
         (shared_created @ [Cancel ''1700000000000'', Settle 0 (Rejected boom)]) \<noteq> None"
    by (simp only: run_shared_failed) simp
  show "clients (the (run inspect_stub init
                      (shared_created @ [Cancel ''1700000000000'', Settle 0 (Rejected boom)])))
       = [\<lparr>readyState = 1,
           sent = [JSON_text (JObject [(''type'', JStr ''cancelled''),
                                       (''downloadId'', JStr ''1700000000000''),
                                       (''message'', JStr ''Download cancelled'')]),
                   JSON_text (JObject [(''type'', JStr ''error''),
                                       (''downloadId'', JStr ''1700000000000''),
                                       (''message'', JStr ''connection reset'')])]\<rparr>]"
    unfolding run_shared_failed option.sel
    by (simp add: cancelled_event_def error_event_def message_or_def boom_def)
qed

theorem failure_after_cancel_of_shared_identifier_witness:
  "truthy (url request0) \<and> truthy (outDir request0)
   \<and> truthy (url request1) \<and> truthy (outDir request1)
   \<and> length (sent (hd (clients (the (run inspect_stub init
            (shared_created @ [Cancel ''1700000000000'', Settle 0 (Rejected boom)])))))) = 2"
  using failure_after_cancel_of_shared_identifier
  by (simp add: request0_def request1_def)

end
